theory Spec2Isabelle
  imports Main "HOL-Library.Sublist"
begin

section \<open>Strings\<close>

text \<open>
  JavaScript strings are modelled as \<open>string\<close>. The characters that cannot be written
  inside a literal are named here: tab, line feed, double quote and backtick.
\<close>

abbreviation (input) TAB :: string where "TAB \<equiv> [CHR 0x09]"
abbreviation (input) NL :: string where "NL \<equiv> [CHR 0x0A]"
abbreviation (input) DQ :: string where "DQ \<equiv> [CHR 0x22]"
abbreviation (input) BQ :: string where "BQ \<equiv> [CHR 0x60]"

text \<open>\<open>Array.prototype.join\<close>.\<close>

fun join :: "string \<Rightarrow> string list \<Rightarrow> string" where
  "join sep [] = ''''"
| "join sep [x] = x"
| "join sep (x # y # ys) = x @ sep @ join sep (y # ys)"

text \<open>Decimal rendering of a non-negative integer, as a template literal or
  \<open>Number.prototype.toString\<close> prints it.\<close>

definition digitChar :: "nat \<Rightarrow> char" where
  "digitChar d = ''0123456789'' ! d"

function showNat :: "nat \<Rightarrow> string" where
  "showNat n = (if n < 10 then [digitChar n] else showNat (n div 10) @ [digitChar (n mod 10)])"
  by pat_completeness auto
termination
  by (relation "measure id") auto

declare showNat.simps [simp del]

definition showInt :: "int \<Rightarrow> string" where
  "showInt i = (if i < 0 then ''-'' @ showNat (nat (- i)) else showNat (nat i))"

section \<open>The Dependency Resolver: \<open>ImportMap.ts\<close>\<close>

text \<open>
  An \<open>ImportMap\<close> holds a \<open>Set<string>\<close> of import identifiers and a
  \<open>Map<string, string>\<close> of aliases. The set is a HOL set: the class only adds to it,
  deletes from it and iterates it to build another set. The alias map is a list of
  entries in insertion order, because \<open>resolveDependencyMap\<close> iterates it and a later
  entry can overwrite an earlier one.
\<close>

record ImportMap =
  imports' :: "string set"
  aliases :: "(string \<times> string) list"

text \<open>\<open>new ImportMap()\<close>.\<close>

definition emptyImportMap :: ImportMap where
  "emptyImportMap = \<lparr>imports' = {}, aliases = []\<rparr>"

text \<open>\<open>Map.prototype.set\<close> (and property assignment on an object): an existing key keeps
  its position and takes the new value, a new key is appended.\<close>

fun mapSet :: "'k \<Rightarrow> 'v \<Rightarrow> ('k \<times> 'v) list \<Rightarrow> ('k \<times> 'v) list" where
  "mapSet k v [] = [(k, v)]"
| "mapSet k v ((k', v') # m) = (if k' = k then (k, v) # m else (k', v') # mapSet k v m)"

text \<open>\<open>Map.prototype.get\<close>.\<close>

definition mapGet :: "('k \<times> 'v) list \<Rightarrow> 'k \<Rightarrow> 'v option" where
  "mapGet m k = map_of m k"

text \<open>\<open>add\<close> and \<open>remove\<close> take a set, an array or one string; all three are a set of
  strings here.\<close>

definition add :: "string set \<Rightarrow> ImportMap \<Rightarrow> ImportMap" where
  "add newImports this = this\<lparr>imports' := imports' this \<union> newImports\<rparr>"

definition remove :: "string set \<Rightarrow> ImportMap \<Rightarrow> ImportMap" where
  "remove importsToRemove this = this\<lparr>imports' := imports' this - importsToRemove\<rparr>"

definition addAlias :: "string \<Rightarrow> string \<Rightarrow> ImportMap \<Rightarrow> ImportMap" where
  "addAlias importName alias this = this\<lparr>aliases := mapSet importName alias (aliases this)\<rparr>"

text \<open>The body of the \<open>forEach\<close> of \<open>mergeWith\<close>, for one \<open>other\<close>.\<close>

definition mergeOne :: "ImportMap \<Rightarrow> ImportMap \<Rightarrow> ImportMap" where
  "mergeOne this other =
     fold (\<lambda>(importName, alias). addAlias importName alias) (aliases other)
       (add (imports' other) this)"

definition mergeWith :: "ImportMap \<Rightarrow> ImportMap list \<Rightarrow> ImportMap" where
  "mergeWith this others = fold (\<lambda>other acc. mergeOne acc other) others this"

definition isEmpty :: "ImportMap \<Rightarrow> bool" where
  "isEmpty this = (imports' this = {})"

definition DEFAULT_MODULE_MAP :: "(string \<times> string) list" where
  "DEFAULT_MODULE_MAP =
     [(''generated'', ''''), (''generatedAccounts'', ''''), (''generatedErrors'', ''''),
      (''generatedInstructions'', ''''), (''generatedTypes'', ''''), (''hooked'', '''')]"

text \<open>The object spread \<open>{ ...a, ...b }\<close>, on objects listed by their own keys in
  enumeration order.\<close>

definition spread :: "(string \<times> string) list \<Rightarrow> (string \<times> string) list \<Rightarrow> (string \<times> string) list" where
  "spread a b = fold (\<lambda>(k, v). mapSet k v) b a"

text \<open>The local function \<open>resolveDependency\<close> of \<open>resolveDependencyMap\<close>. The test
  \<open>!dependencyKey\<close> also holds for a key that is the empty string.\<close>

definition resolveDependency :: "(string \<times> string) list \<Rightarrow> string \<Rightarrow> string" where
  "resolveDependency dependencyMap i =
     (case find (\<lambda>key. prefix (key @ ''::'') i) (map fst dependencyMap) of
        None \<Rightarrow> i
      | Some dependencyKey \<Rightarrow>
          if dependencyKey = '''' then i
          else (case map_of dependencyMap dependencyKey of
                  None \<Rightarrow> i
                | Some dependencyValue \<Rightarrow>
                    if dependencyValue = '''' then ''''
                    else dependencyValue @ drop (length dependencyKey) i))"

definition resolveDependencyMap :: "(string \<times> string) list \<Rightarrow> ImportMap \<Rightarrow> ImportMap" where
  "resolveDependencyMap dependencies this =
     (let dependencyMap = spread DEFAULT_MODULE_MAP dependencies;
          resolved = resolveDependency dependencyMap
      in \<lparr>imports' = (resolved ` imports' this) - {''''},
          aliases = fold (\<lambda>(i, alias) newAliases.
                       if resolved i \<noteq> '''' then mapSet (resolved i) alias newAliases
                       else newAliases)
                     (aliases this) []\<rparr>)"

section \<open>Schema nodes\<close>

text \<open>
  The schema tree comes from the library \<open>@codama/nodes\<close>; only the fields the
  renderer reads are kept. A number node has a format (a string such as \<open>u8\<close>) and
  an endianness.
\<close>

datatype endian = LE | BE

record numberTypeNode =
  format :: string
  endian :: endian

text \<open>\<open>numberTypeNode('u8')\<close>: the endianness defaults to little-endian.\<close>

definition numberTypeNode_u8 :: numberTypeNode where
  "numberTypeNode_u8 = \<lparr>format = ''u8'', endian = LE\<rparr>"

datatype countNode =
    FixedCount nat
  | PrefixedCount numberTypeNode
  | RemainderCount

text \<open>
  One datatype holds every kind of node the type visitor is dispatched on, as the
  visitor itself does not tell them apart before dispatch. The size of a boolean and
  the prefix of a size-prefix wrapper are stored resolved (the number node that
  \<open>resolveNestedTypeNode\<close> finds). A struct field carries its name, its parsed
  documentation lines and its type. \<open>OtherType\<close> stands for the registered type
  nodes the visitor does not override (amount, date-time, offset, sentinel and hidden
  prefix or suffix wrappers), with the children the merging visitor descends into.
\<close>

datatype node =
    ArrayType node countNode
  | BooleanType numberTypeNode
  | BytesType
  | DefinedTypeLink string
  | EnumEmptyVariantType string
  | EnumStructVariantType string node
  | EnumTupleVariantType string node
  | EnumType "node list"
  | FixedSizeType node nat
  | MapType node node countNode
  | NumberType numberTypeNode
  | OptionType node
  | PublicKeyType
  | RemainderOptionType node
  | SetType node countNode
  | SizePrefixType node numberTypeNode
  | StringType string
  | StructFieldType string "string list" node
  | StructType "node list"
  | TupleType "node list"
  | ZeroableOptionType node
  | OtherType "node list"

text \<open>\<open>isScalarEnum\<close> of \<open>@codama/nodes\<close>: every variant is an empty variant.\<close>

fun isEmptyVariant :: "node \<Rightarrow> bool" where
  "isEmptyVariant (EnumEmptyVariantType _) = True"
| "isEmptyVariant _ = False"

definition isScalarEnum :: "node list \<Rightarrow> bool" where
  "isScalarEnum variants = list_all isEmptyVariant variants"

text \<open>\<open>isNode(type, ['enumTypeNode', 'structTypeNode'])\<close>.\<close>

fun isEnumOrStruct :: "node \<Rightarrow> bool" where
  "isEnumOrStruct (EnumType _) = True"
| "isEnumOrStruct (StructType _) = True"
| "isEnumOrStruct _ = False"

fun isOptionTypeNode :: "node \<Rightarrow> bool" where
  "isOptionTypeNode (OptionType _) = True"
| "isOptionTypeNode _ = False"

section \<open>The environment\<close>

text \<open>
  Functions the renderer imports from other modules are parameters of the model:
  \<open>pascalCase\<close> of the node library, \<open>goDocComment\<close> (on the parsed documentation
  lines) and \<open>getBytesFromBytesValueNode\<close> (on the encoding and the data of the node) of
  the utilities, and \<open>JSON.stringify\<close> on strings.
\<close>

record env =
  pascalCase :: "string \<Rightarrow> string"
  goDocComment :: "string list \<Rightarrow> string"
  jsonStringify :: "string \<Rightarrow> string"
  getBytesFromBytesValueNode :: "string \<Rightarrow> string \<Rightarrow> nat list"

section \<open>The Type Manifest Engine: \<open>getTypeManifestVisitor.ts\<close>\<close>

record TypeManifest =
  mImports :: ImportMap
  nestedStructs :: "string list"
  mType :: string

text \<open>Every \<open>throw\<close> of the type visitor and of the value visitor.\<close>

datatype error =
    BoolSizeNotSupported
  | EnumStructVariantNoParentName
  | EnumTupleVariantNoParentName
  | EnumNoParentName
  | NumberEndiannessNotSupported
  | NumberFormatNotSupported string
  | UnsupportedNode string
  | StructFieldNoParentName
  | StructNoParentName
  | UnsupportedConstantValue

text \<open>The variables the visitor closes over. \<open>parentSize\<close> is a number, a number node
  or \<open>null\<close>.\<close>

datatype sizeContext = SizeNumber nat | SizeNode numberTypeNode

record ctx =
  parentName :: "string option"
  nestedStruct :: bool
  inlineStruct :: bool
  parentSize :: "sizeContext option"
  isOptionField :: bool

text \<open>The initial values, from the options \<open>nestedStruct\<close> and \<open>parentName\<close>.\<close>

definition getTypeManifestVisitor :: "bool \<Rightarrow> string option \<Rightarrow> ctx" where
  "getTypeManifestVisitor optNestedStruct optParentName =
     \<lparr>parentName = optParentName, nestedStruct = optNestedStruct, inlineStruct = False,
      parentSize = None, isOptionField = False\<rparr>"

text \<open>A name test \<open>!name\<close> holds for \<open>null\<close> and for the empty string.\<close>

definition noName :: "string option \<Rightarrow> bool" where
  "noName n = (n = None \<or> n = Some '''')"

definition NUMBER_FORMAT_MAP :: "(string \<times> string) list" where
  "NUMBER_FORMAT_MAP =
     [(''f32'', ''float32''), (''f64'', ''float64''), (''i8'', ''int8''), (''i16'', ''int16''),
      (''i32'', ''int32''), (''i64'', ''int64''), (''i128'', ''ag_binary.Int128''),
      (''u8'', ''uint8''), (''u16'', ''uint16''), (''u32'', ''uint32''), (''u64'', ''uint64''),
      (''u128'', ''ag_binary.Uint128''), (''shortU16'', ''uint16'')]"

definition mergeManifests :: "TypeManifest list \<Rightarrow> ImportMap \<times> string list" where
  "mergeManifests manifests =
     (mergeWith emptyImportMap (map mImports manifests), concat (map nestedStructs manifests))"

definition leafManifest :: "ImportMap \<Rightarrow> string \<Rightarrow> TypeManifest" where
  "leafManifest i t = \<lparr>mImports = i, nestedStructs = [], mType = t\<rparr>"

definition visitNumberType :: "numberTypeNode \<Rightarrow> error + TypeManifest" where
  "visitNumberType numberType =
     (if endian numberType \<noteq> LE then Inl NumberEndiannessNotSupported
      else case map_of NUMBER_FORMAT_MAP (format numberType) of
             None \<Rightarrow> Inl (NumberFormatNotSupported (format numberType))
           | Some goType \<Rightarrow>
               Inr (leafManifest
                     (if prefix ''ag_binary.'' goType
                      then add {''github.com/gagliardetto/binary''} emptyImportMap
                      else emptyImportMap)
                     goType))"

definition visitBooleanType :: "numberTypeNode \<Rightarrow> error + TypeManifest" where
  "visitBooleanType resolvedSize =
     (if format resolvedSize = ''u8'' \<and> endian resolvedSize = LE
      then Inr (leafManifest emptyImportMap ''bool'')
      else Inl BoolSizeNotSupported)"

text \<open>What \<open>visitArrayType\<close> makes of the manifest of the item.\<close>

definition arrayManifest :: "countNode \<Rightarrow> TypeManifest \<Rightarrow> TypeManifest" where
  "arrayManifest count childManifest =
     (case count of
        FixedCount n \<Rightarrow> childManifest\<lparr>mType := ''['' @ showNat n @ '']'' @ mType childManifest\<rparr>
      | _ \<Rightarrow> childManifest\<lparr>mType := ''[]'' @ mType childManifest\<rparr>)"

text \<open>The count \<open>visitBytesType\<close> derives from \<open>parentSize\<close>.\<close>

definition bytesArraySize :: "sizeContext option \<Rightarrow> countNode" where
  "bytesArraySize ps =
     (case ps of
        Some (SizeNumber n) \<Rightarrow> FixedCount n
      | Some (SizeNode p) \<Rightarrow> PrefixedCount p
      | None \<Rightarrow> RemainderCount)"

text \<open>\<open>visitStringType\<close>: \<open>!parentSize\<close> holds for \<open>null\<close> and for the number zero.\<close>

definition visitStringType :: "sizeContext option \<Rightarrow> TypeManifest" where
  "visitStringType ps =
     (case ps of
        None \<Rightarrow> leafManifest emptyImportMap ''string''
      | Some (SizeNumber n) \<Rightarrow>
          if n = 0 then leafManifest emptyImportMap ''string''
          else leafManifest emptyImportMap (''['' @ showNat n @ '']byte'')
      | Some (SizeNode _) \<Rightarrow> leafManifest emptyImportMap ''string'')"

text \<open>The scalar branch of \<open>visitEnumType\<close>, after the variants are visited.\<close>

definition constLines :: "string \<Rightarrow> TypeManifest list \<Rightarrow> string list" where
  "constLines typeName variants =
     map (\<lambda>(index, variant).
            let variantName = typeName @ ''_'' @ mType variant
            in if index = 0 then TAB @ variantName @ '' '' @ typeName @ '' = iota''
               else TAB @ variantName)
         (enumerate 0 variants)"

definition scalarEnumManifest :: "string \<Rightarrow> TypeManifest list \<Rightarrow> TypeManifest" where
  "scalarEnumManifest typeName variants =
     (let mergedManifest = mergeManifests variants;
          typeDecl = ''type '' @ typeName @ '' uint8'';
          constDecl = ''const ('' @ NL @ join NL (constLines typeName variants) @ NL @ '')''
      in \<lparr>mImports = fst mergedManifest, nestedStructs = snd mergedManifest,
          mType = typeDecl @ NL @ NL @ constDecl\<rparr>)"

text \<open>The data branch of \<open>visitEnumType\<close>, after the variants are visited.\<close>

definition dataEnumManifest :: "string \<Rightarrow> TypeManifest list \<Rightarrow> TypeManifest" where
  "dataEnumManifest typeName variants =
     (let mergedManifest = mergeManifests variants;
          fieldLines =
            (TAB @ ''Enum ag_binary.BorshEnum '' @ BQ @ ''borsh_enum:'' @ DQ @ ''true'' @ DQ @ BQ)
            # map (\<lambda>variant. TAB @ mType variant) variants
      in \<lparr>mImports = add {''github.com/gagliardetto/binary''} (fst mergedManifest),
          nestedStructs = snd mergedManifest,
          mType = ''type '' @ typeName @ '' struct {'' @ NL @ join NL fieldLines @ NL @ ''}''\<rparr>)"

text \<open>\<open>visitStructType\<close>, after the fields are visited, in the context they leave.\<close>

definition structManifest :: "env \<Rightarrow> string \<Rightarrow> ctx \<Rightarrow> TypeManifest list \<Rightarrow> TypeManifest" where
  "structManifest e originalParentName c flds =
     (let fieldTypes = join NL (map mType flds);
          mergedManifest = mergeManifests flds
      in if nestedStruct c then
           \<lparr>mImports = fst mergedManifest,
            nestedStructs = snd mergedManifest @
              [''type '' @ pascalCase e originalParentName @ '' struct {'' @ NL @ fieldTypes @ NL @ ''}''],
            mType = pascalCase e originalParentName\<rparr>
         else if inlineStruct c then
           \<lparr>mImports = fst mergedManifest, nestedStructs = snd mergedManifest,
            mType = ''struct {'' @ NL @ fieldTypes @ NL @ ''}''\<rparr>
         else
           \<lparr>mImports = fst mergedManifest, nestedStructs = snd mergedManifest,
            mType = ''type '' @ pascalCase e originalParentName @ '' struct {'' @ NL @ fieldTypes @ NL @ ''}''\<rparr>)"

text \<open>\<open>visitTupleType\<close>, after the items are visited.\<close>

definition tupleManifest :: "TypeManifest list \<Rightarrow> TypeManifest" where
  "tupleManifest items =
     (let mergedManifest = mergeManifests items
      in case items of
           [item] \<Rightarrow> \<lparr>mImports = fst mergedManifest, nestedStructs = snd mergedManifest,
                      mType = mType item\<rparr>
         | _ \<Rightarrow>
           \<lparr>mImports = fst mergedManifest, nestedStructs = snd mergedManifest,
            mType = ''struct {'' @ NL
              @ join NL (map (\<lambda>(i, item). TAB @ ''Field'' @ showNat i @ '' '' @ mType item)
                           (enumerate 0 items))
              @ NL @ ''}''\<rparr>)"

text \<open>The merge of the default visitor, for the nodes without an override.\<close>

definition defaultMerge :: "TypeManifest list \<Rightarrow> TypeManifest" where
  "defaultMerge vals =
     \<lparr>mImports = fst (mergeManifests vals), nestedStructs = snd (mergeManifests vals),
      mType = join NL (map mType vals)\<rparr>"

text \<open>The struct tag and the field line of \<open>visitStructFieldType\<close>.\<close>

definition fieldTags :: "ctx \<Rightarrow> string list" where
  "fieldTags c = (if isOptionField c then [''bin:'' @ DQ @ ''optional'' @ DQ] else [])"

definition tagStr :: "string list \<Rightarrow> string" where
  "tagStr tags = (if length tags > 0 then '' '' @ BQ @ join '' '' tags @ BQ else '''')"

text \<open>
  The visitor. A visit takes the context and returns the manifest or the error thrown,
  with the context as the visit leaves it: the assignments after a nested visit are
  skipped when that visit throws. \<open>visitAll\<close> is \<open>nodes.map(n => visit(n, self))\<close>.
  \<open>visitBytesType\<close> visits the array node it builds, an array of \<open>u8\<close> numbers;
  that visit is written out.
\<close>

fun visit :: "env \<Rightarrow> node \<Rightarrow> ctx \<Rightarrow> (error + TypeManifest) \<times> ctx"
  and visitAll :: "env \<Rightarrow> node list \<Rightarrow> ctx \<Rightarrow> (error + TypeManifest list) \<times> ctx" where
  "visit e (ArrayType item count) c =
     (case visit e item c of
        (Inl err, c1) \<Rightarrow> (Inl err, c1)
      | (Inr childManifest, c1) \<Rightarrow> (Inr (arrayManifest count childManifest), c1))"
| "visit e (BooleanType sz) c = (visitBooleanType sz, c)"
| "visit e BytesType c =
     (case visitNumberType numberTypeNode_u8 of
        Inl err \<Rightarrow> (Inl err, c)
      | Inr childManifest \<Rightarrow> (Inr (arrayManifest (bytesArraySize (parentSize c)) childManifest), c))"
| "visit e (DefinedTypeLink name) c = (Inr (leafManifest emptyImportMap (pascalCase e name)), c)"
| "visit e (EnumEmptyVariantType name) c = (Inr (leafManifest emptyImportMap (pascalCase e name)), c)"
| "visit e (EnumStructVariantType vname struct) c =
     (let name = pascalCase e vname; originalParentName = parentName c
      in if noName originalParentName then (Inl EnumStructVariantNoParentName, c)
         else case visit e struct
                     (c\<lparr>inlineStruct := True,
                        parentName := Some (pascalCase e (the originalParentName) @ name)\<rparr>) of
                (Inl err, c1) \<Rightarrow> (Inl err, c1)
              | (Inr typeManifest, c1) \<Rightarrow>
                  (Inr (typeManifest\<lparr>mType := name @ '' '' @ mType typeManifest\<rparr>),
                   c1\<lparr>inlineStruct := False, parentName := originalParentName\<rparr>))"
| "visit e (EnumTupleVariantType vname tuple) c =
     (let name = pascalCase e vname; originalParentName = parentName c
      in if noName originalParentName then (Inl EnumTupleVariantNoParentName, c)
         else case visit e tuple
                     (c\<lparr>parentName := Some (pascalCase e (the originalParentName) @ name)\<rparr>) of
                (Inl err, c1) \<Rightarrow> (Inl err, c1)
              | (Inr childManifest, c1) \<Rightarrow>
                  (Inr (childManifest\<lparr>mType := name @ '' '' @ mType childManifest\<rparr>),
                   c1\<lparr>parentName := originalParentName\<rparr>))"
| "visit e (EnumType variants) c =
     (let originalParentName = parentName c
      in if noName originalParentName then (Inl EnumNoParentName, c)
         else let typeName = pascalCase e (the originalParentName)
              in if isScalarEnum variants then
                   (case visitAll e variants c of
                      (Inl err, c1) \<Rightarrow> (Inl err, c1)
                    | (Inr vs, c1) \<Rightarrow> (Inr (scalarEnumManifest typeName vs), c1))
                 else
                   (case visitAll e variants c of
                      (Inl err, c1) \<Rightarrow> (Inl err, c1)
                    | (Inr vs, c1) \<Rightarrow> (Inr (dataEnumManifest typeName vs), c1)))"
| "visit e (FixedSizeType t sz) c =
     (case visit e t (c\<lparr>parentSize := Some (SizeNumber sz)\<rparr>) of
        (Inl err, c1) \<Rightarrow> (Inl err, c1)
      | (Inr manifest, c1) \<Rightarrow> (Inr manifest, c1\<lparr>parentSize := None\<rparr>))"
| "visit e (MapType key val count) c =
     (case visit e key c of
        (Inl err, c1) \<Rightarrow> (Inl err, c1)
      | (Inr k, c1) \<Rightarrow>
          (case visit e val c1 of
             (Inl err, c2) \<Rightarrow> (Inl err, c2)
           | (Inr v, c2) \<Rightarrow>
               (Inr \<lparr>mImports = fst (mergeManifests [k, v]),
                     nestedStructs = snd (mergeManifests [k, v]),
                     mType = ''map['' @ mType k @ '']'' @ mType v\<rparr>, c2)))"
| "visit e (NumberType numberType) c = (visitNumberType numberType, c)"
| "visit e (OptionType item) c =
     (case visit e item (c\<lparr>isOptionField := True\<rparr>) of
        (Inl err, c1) \<Rightarrow> (Inl err, c1)
      | (Inr childManifest, c1) \<Rightarrow>
          (Inr (childManifest\<lparr>mType := ''*'' @ mType childManifest\<rparr>),
           c1\<lparr>isOptionField := False\<rparr>))"
| "visit e PublicKeyType c =
     (Inr (leafManifest (add {''github.com/gagliardetto/solana-go''} emptyImportMap)
             ''ag_solanago.PublicKey''), c)"
| "visit e (RemainderOptionType item) c = (Inl (UnsupportedNode ''remainderOptionTypeNode''), c)"
| "visit e (SetType item count) c =
     (case visit e item c of
        (Inl err, c1) \<Rightarrow> (Inl err, c1)
      | (Inr childManifest, c1) \<Rightarrow>
          (Inr (childManifest\<lparr>mType := ''map['' @ mType childManifest @ '']struct{}''\<rparr>), c1))"
| "visit e (SizePrefixType t pre) c =
     (case visit e t (c\<lparr>parentSize := Some (SizeNode pre)\<rparr>) of
        (Inl err, c1) \<Rightarrow> (Inl err, c1)
      | (Inr manifest, c1) \<Rightarrow> (Inr manifest, c1\<lparr>parentSize := None\<rparr>))"
| "visit e (StringType encoding) c = (Inr (visitStringType (parentSize c)), c)"
| "visit e (StructFieldType fname docs t) c =
     (let originalParentName = parentName c;
          originalInlineStruct = inlineStruct c;
          originalNestedStruct = nestedStruct c
      in if noName originalParentName then (Inl StructFieldNoParentName, c)
         else case visit e t
                     (c\<lparr>parentName :=
                          Some (pascalCase e (the originalParentName) @ pascalCase e fname),
                        nestedStruct := True, inlineStruct := False\<rparr>) of
                (Inl err, c1) \<Rightarrow> (Inl err, c1)
              | (Inr fieldManifest, c1) \<Rightarrow>
                  let c2 = c1\<lparr>parentName := originalParentName,
                              inlineStruct := originalInlineStruct,
                              nestedStruct := originalNestedStruct\<rparr>;
                      fieldName = pascalCase e fname;
                      docblock = goDocComment e docs;
                      tags = fieldTags c2
                  in (Inr (fieldManifest\<lparr>mType :=
                             docblock @ TAB @ fieldName @ '' '' @ mType fieldManifest @ tagStr tags\<rparr>),
                      if isOptionField c2 then c2\<lparr>isOptionField := False\<rparr> else c2))"
| "visit e (StructType flds) c =
     (let originalParentName = parentName c
      in if noName originalParentName then (Inl StructNoParentName, c)
         else case visitAll e flds c of
                (Inl err, c1) \<Rightarrow> (Inl err, c1)
              | (Inr fs, c1) \<Rightarrow> (Inr (structManifest e (the originalParentName) c1 fs), c1))"
| "visit e (TupleType items) c =
     (case visitAll e items c of
        (Inl err, c1) \<Rightarrow> (Inl err, c1)
      | (Inr ms, c1) \<Rightarrow> (Inr (tupleManifest ms), c1))"
| "visit e (ZeroableOptionType item) c = (Inl (UnsupportedNode ''zeroableOptionTypeNode''), c)"
| "visit e (OtherType children) c =
     (case visitAll e children c of
        (Inl err, c1) \<Rightarrow> (Inl err, c1)
      | (Inr ms, c1) \<Rightarrow> (Inr (defaultMerge ms), c1))"
| "visitAll e [] c = (Inr [], c)"
| "visitAll e (n # ns) c =
     (case visit e n c of
        (Inl err, c1) \<Rightarrow> (Inl err, c1)
      | (Inr m, c1) \<Rightarrow>
          (case visitAll e ns c1 of
             (Inl err, c2) \<Rightarrow> (Inl err, c2)
           | (Inr ms, c2) \<Rightarrow> (Inr (m # ms), c2)))"

text \<open>\<open>visitAccount\<close> and \<open>visitDefinedType\<close>, on the name of the node and its type.\<close>

definition visitAccount :: "env \<Rightarrow> string \<Rightarrow> node \<Rightarrow> ctx \<Rightarrow> (error + TypeManifest) \<times> ctx" where
  "visitAccount e name data' c =
     (case visit e data' (c\<lparr>parentName := Some (pascalCase e name)\<rparr>) of
        (Inl err, c1) \<Rightarrow> (Inl err, c1)
      | (Inr manifest, c1) \<Rightarrow> (Inr manifest, c1\<lparr>parentName := None\<rparr>))"

definition visitDefinedType :: "env \<Rightarrow> string \<Rightarrow> node \<Rightarrow> ctx \<Rightarrow> (error + TypeManifest) \<times> ctx" where
  "visitDefinedType e name t c =
     (case visit e t (c\<lparr>parentName := Some (pascalCase e name)\<rparr>) of
        (Inl err, c1) \<Rightarrow> (Inl err, c1)
      | (Inr manifest, c1) \<Rightarrow>
          (Inr (manifest\<lparr>mType :=
                  (if isEnumOrStruct t then mType manifest
                   else ''type '' @ pascalCase e name @ '' = '' @ mType manifest)\<rparr>),
           c1\<lparr>parentName := None\<rparr>))"

section \<open>The Value Renderer: \<open>renderValueNodeVisitor.ts\<close>\<close>

text \<open>
  The value nodes, with the fields the renderer reads. A number is an integer here; an
  enum value has the name of its enum link, the name of its variant and an optional
  payload (a struct or tuple value).
\<close>

datatype valueNode =
    ArrayValue "valueNode list"
  | BooleanValue bool
  | BytesValue string string
  | ConstantValue node valueNode
  | EnumValue string string "valueNode option"
  | MapEntryValue valueNode valueNode
  | MapValue "valueNode list"
  | NoneValue
  | NumberValue int
  | PublicKeyValue string
  | SetValue "valueNode list"
  | SomeValue valueNode
  | StringValue string
  | StructFieldValue string valueNode
  | StructValue "valueNode list"
  | TupleValue "valueNode list"

record rendered =
  rImports :: ImportMap
  render :: string

text \<open>The results of \<open>items.map(v => visit(v, this))\<close>: the first throw ends the map.\<close>

fun collect :: "(error + 'a) list \<Rightarrow> error + 'a list" where
  "collect [] = Inr []"
| "collect (Inl err # rs) = Inl err"
| "collect (Inr x # rs) = (case collect rs of Inl err \<Rightarrow> Inl err | Inr xs \<Rightarrow> Inr (x # xs))"

text \<open>\<open>visitNumberValue\<close>.\<close>

definition numberLiteral :: "int \<Rightarrow> rendered" where
  "numberLiteral n = \<lparr>rImports = emptyImportMap, render = showInt n\<rparr>"

text \<open>\<open>visitArrayValue\<close>, after the items are visited.\<close>

definition arrayLiteral :: "rendered list \<Rightarrow> rendered" where
  "arrayLiteral list =
     \<lparr>rImports = mergeWith emptyImportMap (map rImports list),
      render = ''[]byte{'' @ join '', '' (map render list) @ ''}''\<rparr>"

text \<open>\<open>visitBytesValue\<close>: the bytes become number value nodes, and the array value node
  made of them is visited.\<close>

definition bytesLiteral :: "env \<Rightarrow> string \<Rightarrow> string \<Rightarrow> rendered" where
  "bytesLiteral e encoding data' =
     arrayLiteral (map (\<lambda>b. numberLiteral (int b)) (getBytesFromBytesValueNode e encoding data'))"

text \<open>The number branch of \<open>visitConstantValue\<close>, on the rendered number.\<close>

definition constantNumber :: "numberTypeNode \<Rightarrow> rendered \<Rightarrow> rendered" where
  "constantNumber t numberManifest =
     (let goEndian = (if endian t = LE then ''LittleEndian'' else ''BigEndian'')
      in if format t = ''u8'' then
           numberManifest\<lparr>render := ''byte('' @ render numberManifest @ '')''\<rparr>
         else
           \<lparr>rImports = add {''encoding/binary''} (rImports numberManifest),
            render = ''binary.'' @ goEndian @ ''.AppendUint'' @ drop 1 (format t)
              @ ''(nil, '' @ render numberManifest @ '')''\<rparr>)"

fun renderValueNode :: "env \<Rightarrow> valueNode \<Rightarrow> error + rendered" where
  "renderValueNode e (ArrayValue items) =
     (case collect (map (renderValueNode e) items) of
        Inl err \<Rightarrow> Inl err
      | Inr list \<Rightarrow> Inr (arrayLiteral list))"
| "renderValueNode e (BooleanValue b) =
     Inr \<lparr>rImports = emptyImportMap, render = (if b then ''true'' else ''false'')\<rparr>"
| "renderValueNode e (BytesValue encoding data') = Inr (bytesLiteral e encoding data')"
| "renderValueNode e (ConstantValue t v) =
     (case v of
        BytesValue encoding data' \<Rightarrow> Inr (bytesLiteral e encoding data')
      | StringValue s \<Rightarrow>
          (case t of
             StringType encoding \<Rightarrow> Inr (bytesLiteral e encoding s)
           | _ \<Rightarrow> Inl UnsupportedConstantValue)
      | NumberValue n \<Rightarrow>
          (case t of
             NumberType nt \<Rightarrow> Inr (constantNumber nt (numberLiteral n))
           | _ \<Rightarrow> Inl UnsupportedConstantValue)
      | _ \<Rightarrow> Inl UnsupportedConstantValue)"
| "renderValueNode e (EnumValue enumName variant None) =
     Inr \<lparr>rImports = emptyImportMap,
          render = pascalCase e enumName @ ''_'' @ pascalCase e variant\<rparr>"
| "renderValueNode e (EnumValue enumName variant (Some v)) =
     (case renderValueNode e v of
        Inl err \<Rightarrow> Inl err
      | Inr enumValue \<Rightarrow>
          Inr \<lparr>rImports = mergeWith emptyImportMap [rImports enumValue],
               render = pascalCase e enumName @ ''_'' @ pascalCase e variant
                 @ '' '' @ render enumValue\<rparr>)"
| "renderValueNode e (MapEntryValue key val) =
     (case renderValueNode e key of
        Inl err \<Rightarrow> Inl err
      | Inr mapKey \<Rightarrow>
          (case renderValueNode e val of
             Inl err \<Rightarrow> Inl err
           | Inr mapValue \<Rightarrow>
               Inr \<lparr>rImports = mergeWith (rImports mapKey) [rImports mapValue],
                    render = render mapKey @ '': '' @ render mapValue\<rparr>))"
| "renderValueNode e (MapValue entries) =
     (case collect (map (renderValueNode e) entries) of
        Inl err \<Rightarrow> Inl err
      | Inr list \<Rightarrow>
          Inr \<lparr>rImports = mergeWith emptyImportMap (map rImports list),
               render = ''map[string]interface{}{'' @ join '', '' (map render list) @ ''}''\<rparr>)"
| "renderValueNode e NoneValue = Inr \<lparr>rImports = emptyImportMap, render = ''nil''\<rparr>"
| "renderValueNode e (NumberValue n) = Inr (numberLiteral n)"
| "renderValueNode e (PublicKeyValue publicKey) =
     Inr \<lparr>rImports = add {''github.com/gagliardetto/solana-go''} emptyImportMap,
          render = ''ag_solanago.MustPublicKeyFromBase58('' @ DQ @ publicKey @ DQ @ '')''\<rparr>"
| "renderValueNode e (SetValue items) =
     (case collect (map (renderValueNode e) items) of
        Inl err \<Rightarrow> Inl err
      | Inr list \<Rightarrow>
          Inr \<lparr>rImports = mergeWith emptyImportMap (map rImports list),
               render = ''map[interface{}]struct{}{''
                 @ join '', '' (map (\<lambda>c. render c @ '': {}'') list) @ ''}''\<rparr>)"
| "renderValueNode e (SomeValue v) =
     (case renderValueNode e v of
        Inl err \<Rightarrow> Inl err
      | Inr child \<Rightarrow>
          Inr (child\<lparr>render := ''func() *interface{} { v := '' @ render child
                 @ ''; return &v }()''\<rparr>))"
| "renderValueNode e (StringValue s) =
     Inr \<lparr>rImports = emptyImportMap, render = jsonStringify e s\<rparr>"
| "renderValueNode e (StructFieldValue name v) =
     (case renderValueNode e v of
        Inl err \<Rightarrow> Inl err
      | Inr structValue \<Rightarrow>
          Inr \<lparr>rImports = rImports structValue,
               render = pascalCase e name @ '': '' @ render structValue\<rparr>)"
| "renderValueNode e (StructValue flds) =
     (case collect (map (renderValueNode e) flds) of
        Inl err \<Rightarrow> Inl err
      | Inr list \<Rightarrow>
          Inr \<lparr>rImports = mergeWith emptyImportMap (map rImports list),
               render = ''{'' @ join '', '' (map render list) @ ''}''\<rparr>)"
| "renderValueNode e (TupleValue items) =
     (case collect (map (renderValueNode e) items) of
        Inl err \<Rightarrow> Inl err
      | Inr list \<Rightarrow>
          Inr \<lparr>rImports = mergeWith emptyImportMap (map rImports list),
               render = (case list of
                           [single] \<Rightarrow> render single
                         | _ \<Rightarrow> ''['' @ join '', '' (map render list) @ '']'')\<rparr>)"

section \<open>Render-Map Assembly: the instruction page of \<open>getRenderMapVisitor.ts\<close>\<close>

text \<open>
  An instruction node, with the fields \<open>visitInstruction\<close> reads: its name, the names of
  its accounts, and its arguments. The default value of an argument is a value node or
  one of the contextual nodes that are no value node.
\<close>

datatype defaultValueStrategy = Omitted | Optional

datatype instructionInputValueNode = Value valueNode | Contextual string

record instructionArgumentNode =
  argName :: string
  argType :: node
  argDocs :: "string list"
  defaultValue :: "instructionInputValueNode option"
  defaultValueStrategy :: "defaultValueStrategy option"

record instructionNode =
  instructionName :: string
  accounts :: "string list"
  arguments :: "instructionArgumentNode list"

text \<open>\<open>Array.prototype.indexOf\<close>: the first index of the element, or \<open>-1\<close>.\<close>

fun indexOf :: "'a list \<Rightarrow> 'a \<Rightarrow> int" where
  "indexOf [] x = - 1"
| "indexOf (y # ys) x = (if y = x then 0 else if indexOf ys x < 0 then - 1 else indexOf ys x + 1)"

text \<open>\<open>[...new Set(xs)]\<close>: the elements in the order of their first occurrence.\<close>

definition newSet :: "'a list \<Rightarrow> 'a list" where
  "newSet xs = fold (\<lambda>x s. if x \<in> set s then s else s @ [x]) xs []"

definition getConflictsForInstructionAccountsAndArgs :: "instructionNode \<Rightarrow> string list" where
  "getConflictsForInstructionAccountsAndArgs instruction =
     (let allNames = accounts instruction @ map argName (arguments instruction);
          duplicates = map snd (filter (\<lambda>(i, x). indexOf allNames x \<noteq> int i) (enumerate 0 allNames))
      in newSet duplicates)"

text \<open>The message \<open>visitInstruction\<close> passes to \<open>logWarn\<close>.\<close>

definition conflictWarning :: "string \<Rightarrow> string list \<Rightarrow> string" where
  "conflictWarning name conflicts =
     ''[Go] Accounts and args of instruction ['' @ name @ ''] have the following ''
     @ ''conflicting attributes ['' @ join '', '' conflicts @ '']. ''
     @ ''Thus, the conflicting arguments will be suffixed with '' @ DQ @ ''Arg'' @ DQ @ ''. ''
     @ ''You may want to rename the conflicting attributes.''"

record instructionArg =
  isDefault :: bool
  innerOptionType :: "string option"
  name :: string
  optional :: bool
  typeName :: string
  renderedValue :: "string option"

text \<open>What the loop over the arguments accumulates.\<close>

record argsState =
  sImports :: ImportMap
  instructionArgs :: "instructionArg list"
  hasArgs :: bool
  hasOptional :: bool

text \<open>The body of the loop, for one argument. Each argument is visited by a visitor of
  its own, created with \<open>nestedStruct\<close> set and the data struct's name as parent.\<close>

definition visitArgument ::
  "env \<Rightarrow> string \<Rightarrow> string list \<Rightarrow> instructionArgumentNode \<Rightarrow> argsState \<Rightarrow> error + argsState" where
  "visitArgument e nodeName accountsAndArgsConflicts argument s =
     (case fst (visit e (argType argument)
                  (getTypeManifestVisitor True (Some (pascalCase e nodeName @ ''InstructionData'')))) of
        Inl err \<Rightarrow> Inl err
      | Inr manifest \<Rightarrow>
          let imports1 = mergeWith (sImports s) [mImports manifest];
              innerOption = (if isOptionTypeNode (argType argument)
                             then Some (drop 1 (mType manifest)) else None);
              strategy = defaultValueStrategy argument;
              argName' = (if argName argument \<in> set accountsAndArgsConflicts
                          then argName argument @ ''Arg'' else argName argument)
          in (case defaultValue argument of
                Some (Value v) \<Rightarrow>
                  (case renderValueNode e v of
                     Inl err \<Rightarrow> Inl err
                   | Inr r \<Rightarrow>
                       Inr \<lparr>sImports = mergeWith imports1 [rImports r],
                            instructionArgs = instructionArgs s @
                              [\<lparr>isDefault = (strategy = Some Omitted), innerOptionType = innerOption,
                                name = argName', optional = (strategy \<noteq> Some Omitted),
                                typeName = mType manifest, renderedValue = Some (render r)\<rparr>],
                            hasArgs = (hasArgs s \<or> strategy \<noteq> Some Omitted),
                            hasOptional = (hasOptional s \<or> strategy \<noteq> Some Omitted)\<rparr>)
              | _ \<Rightarrow>
                  Inr \<lparr>sImports = imports1,
                       instructionArgs = instructionArgs s @
                         [\<lparr>isDefault = False, innerOptionType = innerOption,
                           name = argName', optional = False,
                           typeName = mType manifest, renderedValue = None\<rparr>],
                       hasArgs = (hasArgs s \<or> strategy \<noteq> Some Omitted),
                       hasOptional = hasOptional s\<rparr>))"

fun visitArguments ::
  "env \<Rightarrow> string \<Rightarrow> string list \<Rightarrow> instructionArgumentNode list \<Rightarrow> argsState \<Rightarrow> error + argsState" where
  "visitArguments e nodeName conflicts [] s = Inr s"
| "visitArguments e nodeName conflicts (a # as) s =
     (case visitArgument e nodeName conflicts a s of
        Inl err \<Rightarrow> Inl err
      | Inr s1 \<Rightarrow> visitArguments e nodeName conflicts as s1)"

text \<open>\<open>structTypeNodeFromInstructionArgumentNodes\<close> of \<open>@codama/nodes\<close>.\<close>

definition structTypeNodeFromInstructionArgumentNodes :: "instructionArgumentNode list \<Rightarrow> node" where
  "structTypeNodeFromInstructionArgumentNodes args =
     StructType (map (\<lambda>a. StructFieldType (argName a) (argDocs a) (argType a)) args)"

text \<open>What \<open>visitInstruction\<close> hands to the page template.\<close>

record instructionPage =
  pageDiscriminatorConstants :: string
  pageHasArgs :: bool
  pageHasOptional :: bool
  pageImports :: ImportMap
  pageInstructionArgs :: "instructionArg list"
  pageTypeManifest :: TypeManifest

text \<open>
  \<open>visitInstruction\<close>, up to the call of the template: the warnings it logs, and the page
  data or the error thrown. The discriminator constants come from a helper of the
  utilities; their outcome is the argument \<open>discriminatorConstants\<close>.
\<close>

definition visitInstruction ::
  "env \<Rightarrow> (error + rendered) \<Rightarrow> instructionNode \<Rightarrow> string list \<times> (error + instructionPage)" where
  "visitInstruction e discriminatorConstants node =
     (let imports0 = add {''github.com/gagliardetto/binary''}
                       (add {''github.com/gagliardetto/solana-go''} emptyImportMap);
          imports1 = (if length (accounts node) > 0 then add {''fmt''} imports0 else imports0);
          accountsAndArgsConflicts = getConflictsForInstructionAccountsAndArgs node;
          warnings = (if length accountsAndArgsConflicts > 0
                      then [conflictWarning (instructionName node) accountsAndArgsConflicts]
                      else [])
      in (warnings,
          case discriminatorConstants of
            Inl err \<Rightarrow> Inl err
          | Inr dc \<Rightarrow>
              (case visitArguments e (instructionName node) accountsAndArgsConflicts (arguments node)
                      \<lparr>sImports = imports1, instructionArgs = [], hasArgs = False, hasOptional = False\<rparr> of
                 Inl err \<Rightarrow> Inl err
               | Inr s \<Rightarrow>
                   (case fst (visit e (structTypeNodeFromInstructionArgumentNodes (arguments node))
                                (getTypeManifestVisitor False
                                   (Some (pascalCase e (instructionName node) @ ''InstructionData'')))) of
                      Inl err \<Rightarrow> Inl err
                    | Inr typeManifest \<Rightarrow>
                        Inr \<lparr>pageDiscriminatorConstants = render dc,
                             pageHasArgs = hasArgs s,
                             pageHasOptional = hasOptional s,
                             pageImports = mergeWith (sImports s) [rImports dc],
                             pageInstructionArgs = instructionArgs s,
                             pageTypeManifest = typeManifest\<rparr>))))"

section \<open>An environment for the examples\<close>

text \<open>
  The examples run in an environment where \<open>pascalCase\<close> turns the first letter into a
  capital, which is what the library does to a lower-case or camel-case word of ASCII
  letters; documentation lines become Go line comments; a string is printed between
  double quotes; and a bytes value is decoded from base16.
\<close>

definition upperCase :: "char \<Rightarrow> char" where
  "upperCase ch =
     (case map_of (zip ''abcdefghijklmnopqrstuvwxyz'' ''ABCDEFGHIJKLMNOPQRSTUVWXYZ'') ch of
        Some u \<Rightarrow> u
      | None \<Rightarrow> ch)"

fun capitalizeFirst :: "string \<Rightarrow> string" where
  "capitalizeFirst [] = []"
| "capitalizeFirst (ch # rest) = upperCase ch # rest"

definition hexDigit :: "char \<Rightarrow> nat" where
  "hexDigit ch =
     (case map_of (zip ''0123456789abcdef'' [0, 1, 2, 3, 4, 5, 6, 7, 8, 9, 10, 11, 12, 13, 14, 15]) ch of
        Some d \<Rightarrow> d
      | None \<Rightarrow> 0)"

fun base16 :: "string \<Rightarrow> nat list" where
  "base16 (hi # lo # rest) = (16 * hexDigit hi + hexDigit lo) # base16 rest"
| "base16 _ = []"

definition exampleEnv :: env where
  "exampleEnv =
     \<lparr>pascalCase = capitalizeFirst,
      goDocComment = (\<lambda>docs. concat (map (\<lambda>line. ''// '' @ line @ NL) docs)),
      jsonStringify = (\<lambda>s. DQ @ s @ DQ),
      getBytesFromBytesValueNode = (\<lambda>encoding data'. base16 data')\<rparr>"

definition u8 :: node where
  "u8 = NumberType \<lparr>format = ''u8'', endian = LE\<rparr>"

section \<open>Predicates used in the statements\<close>

text \<open>The children of a well-formed struct node are struct field nodes.\<close>

fun isStructFieldType :: "node \<Rightarrow> bool" where
  "isStructFieldType (StructFieldType _ _ _) = True"
| "isStructFieldType _ = False"

text \<open>The name of an enum variant node.\<close>

fun variantName :: "node \<Rightarrow> string" where
  "variantName (EnumEmptyVariantType n) = n"
| "variantName (EnumStructVariantType n _) = n"
| "variantName (EnumTupleVariantType n _) = n"
| "variantName _ = ''''"

text \<open>
  How the context after a visit relates to the context before it: the parent name and
  the nested flag are the ones before; the inline flag, the parent size and the option
  flag are the ones before or cleared.
\<close>

definition contextKept :: "ctx \<Rightarrow> ctx \<Rightarrow> bool" where
  "contextKept c c' \<longleftrightarrow>
     parentName c' = parentName c \<and> nestedStruct c' = nestedStruct c
     \<and> (inlineStruct c' = inlineStruct c \<or> inlineStruct c' = False)
     \<and> (parentSize c' = parentSize c \<or> parentSize c' = None)
     \<and> (isOptionField c' = isOptionField c \<or> isOptionField c' = False)"

section \<open>Lemmas on the alias map\<close>

lemma map_of_mapSet: "map_of (mapSet k v m) = (map_of m)(k \<mapsto> v)"
  by (induction m) (auto simp: fun_eq_iff)

lemma keys_mapSet: "fst ` set (mapSet k v m) = insert k (fst ` set m)"
  by (simp add: dom_map_of_conv_image_fst [symmetric] map_of_mapSet)

lemma distinct_mapSet: "distinct (map fst m) \<Longrightarrow> distinct (map fst (mapSet k v m))"
  by (induction m) (auto simp: keys_mapSet)

lemma mapSet_fresh: "k \<notin> fst ` set m \<Longrightarrow> mapSet k v m = m @ [(k, v)]"
  by (induction m) auto

lemma aliases_add: "aliases (add s m) = aliases m"
  by (simp add: add_def)

lemma aliases_fold_addAlias:
  "aliases (fold (\<lambda>(importName, alias). addAlias importName alias) xs m) =
   fold (\<lambda>(k, v). mapSet k v) xs (aliases m)"
  by (induction xs arbitrary: m) (auto simp: addAlias_def)

lemma map_of_fold_mapSet:
  "distinct (map fst xs) \<Longrightarrow> map_of (fold (\<lambda>(k, v). mapSet k v) xs m) = map_of m ++ map_of xs"
proof (induction xs arbitrary: m)
  case Nil
  then show ?case by simp
next
  case (Cons x xs)
  obtain k v where x: "x = (k, v)" by (cases x)
  from Cons.prems have fresh: "map_of xs k = None" and d: "distinct (map fst xs)"
    by (auto simp: x map_of_eq_None_iff)
  have "map_of (fold (\<lambda>(k, v). mapSet k v) (x # xs) m) = map_of (mapSet k v m) ++ map_of xs"
    using Cons.IH [OF d] by (simp add: x)
  also have "\<dots> = map_of m ++ map_of (x # xs)"
    using fresh by (auto simp: x map_of_mapSet fun_eq_iff map_add_def split: option.splits)
  finally show ?case .
qed

lemma fold_mapSet_append:
  "distinct (map fst (acc @ xs)) \<Longrightarrow> fold (\<lambda>(k, v). mapSet k v) xs acc = acc @ xs"
proof (induction xs arbitrary: acc)
  case Nil
  then show ?case by simp
next
  case (Cons x xs)
  obtain k v where x: "x = (k, v)" by (cases x)
  from Cons.prems have "k \<notin> fst ` set acc" by (auto simp: x)
  then have "mapSet k v acc = acc @ [(k, v)]" by (rule mapSet_fresh)
  moreover from Cons.prems have "distinct (map fst ((acc @ [(k, v)]) @ xs))" by (simp add: x)
  ultimately show ?case using Cons.IH [of "acc @ [(k, v)]"] by (simp add: x)
qed

section \<open>Merging import maps\<close>

text \<open>
  Claim C10. When two import maps give the same identifier different aliases,
  \<open>a.mergeWith(b)\<close> leaves the identifier with the alias of \<open>b\<close>: the merge overwrites the
  alias of the receiver. The entries of a \<open>Map\<close> have distinct keys.
\<close>

theorem mergeWith_last_alias_wins:
  assumes "distinct (map fst (aliases b))"
    and "mapGet (aliases a) i = Some x"
    and "mapGet (aliases b) i = Some y"
    and "x \<noteq> y"
  shows "mapGet (aliases (mergeWith a [b])) i = Some y"
  using assms
  by (simp add: mergeWith_def mergeOne_def mapGet_def aliases_fold_addAlias aliases_add
      map_of_fold_mapSet)

theorem mergeWith_last_alias_wins_witness:
  "mapGet (aliases (mergeWith \<lparr>imports' = {''fmt''}, aliases = [(''fmt'', ''f1'')]\<rparr>
      [\<lparr>imports' = {''fmt''}, aliases = [(''fmt'', ''f2'')]\<rparr>])) ''fmt'' = Some ''f2''"
  using mergeWith_last_alias_wins [of "\<lparr>imports' = {''fmt''}, aliases = [(''fmt'', ''f2'')]\<rparr>"
      "\<lparr>imports' = {''fmt''}, aliases = [(''fmt'', ''f1'')]\<rparr>" "''fmt''" "''f1''" "''f2''"]
  by (simp add: mapGet_def)

section \<open>Resolving a dependency map\<close>

lemma resolveDependency_unmatched:
  assumes "\<forall>key \<in> fst ` set dm. \<not> prefix (key @ ''::'') i"
  shows "resolveDependency dm i = i"
proof -
  have "find (\<lambda>key. prefix (key @ ''::'') i) (map fst dm) = None"
    using assms by (simp add: find_None_iff)
  then show ?thesis by (simp add: resolveDependency_def)
qed

lemma resolved_aliases_keys:
  "distinct (map fst acc) \<Longrightarrow> '''' \<notin> fst ` set acc \<Longrightarrow>
   distinct (map fst (fold (\<lambda>(i, alias) newAliases.
       if r i \<noteq> '''' then mapSet (r i) alias newAliases else newAliases) xs acc))
   \<and> '''' \<notin> fst ` set (fold (\<lambda>(i, alias) newAliases.
       if r i \<noteq> '''' then mapSet (r i) alias newAliases else newAliases) xs acc)"
proof (induction xs arbitrary: acc)
  case Nil
  then show ?case by simp
next
  case (Cons x xs)
  obtain k v where x: "x = (k, v)" by (cases x)
  show ?case
  proof (cases "r k = ''''")
    case True
    then show ?thesis using Cons.IH [OF Cons.prems] by (simp add: x)
  next
    case False
    have "distinct (map fst (mapSet (r k) v acc))"
      using Cons.prems(1) by (rule distinct_mapSet)
    moreover have "'''' \<notin> fst ` set (mapSet (r k) v acc)"
      using Cons.prems(2) False by (simp add: keys_mapSet)
    ultimately show ?thesis using Cons.IH [of "mapSet (r k) v acc"] False by (simp add: x)
  qed
qed

lemma resolved_aliases_fixed:
  assumes "\<forall>k \<in> fst ` set xs. r k = k \<and> k \<noteq> ''''"
  shows "fold (\<lambda>(i, alias) newAliases.
       if r i \<noteq> '''' then mapSet (r i) alias newAliases else newAliases) xs acc
     = fold (\<lambda>(k, v). mapSet k v) xs acc"
  using assms by (induction xs arbitrary: acc) auto

lemmas resolve_eval =
  resolveDependencyMap_def resolveDependency_def spread_def DEFAULT_MODULE_MAP_def Let_def

text \<open>
  Claim C6, as stated: resolving an already resolved import map with the same dependency
  map gives the same import map. It fails when a mapped value is itself matched by a key:
  with \<open>types\<close> mapped to \<open>shared\<close> and \<open>shared\<close> mapped to a module path, the identifier
  \<open>types::Foo\<close> resolves to \<open>shared::Foo\<close>, and that resolves to the module path.
\<close>

theorem resolveDependencyMap_not_idempotent:
  "resolveDependencyMap [(''types'', ''shared''), (''shared'', ''github.com/acme/shared'')]
     (resolveDependencyMap [(''types'', ''shared''), (''shared'', ''github.com/acme/shared'')]
        \<lparr>imports' = {''types::Foo''}, aliases = []\<rparr>)
   \<noteq> resolveDependencyMap [(''types'', ''shared''), (''shared'', ''github.com/acme/shared'')]
        \<lparr>imports' = {''types::Foo''}, aliases = []\<rparr>"
  by (simp add: resolve_eval)

text \<open>
  Claim C6, amended: resolution is idempotent whenever no identifier of the resolved import
  map (in its set or among the keys of its aliases) starts with \<open>key::\<close> for a key of the
  dependency map in force, the defaults overridden by the given map. The second resolution
  then returns the resolved import map, set and aliases.
\<close>

theorem resolveDependencyMap_idempotent:
  assumes "\<forall>i \<in> imports' (resolveDependencyMap m S) \<union> fst ` set (aliases (resolveDependencyMap m S)).
             \<forall>key \<in> fst ` set (spread DEFAULT_MODULE_MAP m). \<not> prefix (key @ ''::'') i"
  shows "resolveDependencyMap m (resolveDependencyMap m S) = resolveDependencyMap m S"
proof -
  define dm where "dm = spread DEFAULT_MODULE_MAP m"
  define r where "r = resolveDependency dm"
  define R where "R = resolveDependencyMap m S"
  have unfold: "resolveDependencyMap m X =
      \<lparr>imports' = r ` imports' X - {''''},
       aliases = fold (\<lambda>(i, alias) newAliases.
         if r i \<noteq> '''' then mapSet (r i) alias newAliases else newAliases) (aliases X) []\<rparr>" for X
    unfolding r_def dm_def resolveDependencyMap_def Let_def ..
  have R_imports: "imports' R = r ` imports' S - {''''}"
    and R_aliases: "aliases R = fold (\<lambda>(i, alias) newAliases.
       if r i \<noteq> '''' then mapSet (r i) alias newAliases else newAliases) (aliases S) []"
    unfolding R_def unfold by simp_all
  have fixed: "r i = i" if "i \<in> imports' R \<union> fst ` set (aliases R)" for i
  proof -
    have "\<forall>key \<in> fst ` set dm. \<not> prefix (key @ ''::'') i"
      using assms that unfolding R_def dm_def by blast
    then show ?thesis unfolding r_def by (rule resolveDependency_unmatched)
  qed
  have keys: "distinct (map fst (aliases R))" "'''' \<notin> fst ` set (aliases R)"
    using resolved_aliases_keys [of "[]" r "aliases S"] unfolding R_aliases by simp_all
  have "r ` imports' R = (\<lambda>i. i) ` imports' R"
    by (rule image_cong) (simp_all add: fixed)
  moreover have "'''' \<notin> imports' R"
    unfolding R_imports by simp
  ultimately have imps: "r ` imports' R - {''''} = imports' R"
    by simp
  have "\<forall>k \<in> fst ` set (aliases R). r k = k \<and> k \<noteq> ''''"
    using fixed keys(2) by (metis UnI2)
  then have "fold (\<lambda>(i, alias) newAliases.
       if r i \<noteq> '''' then mapSet (r i) alias newAliases else newAliases) (aliases R) []
     = fold (\<lambda>(k, v). mapSet k v) (aliases R) []"
    by (rule resolved_aliases_fixed)
  also have "\<dots> = aliases R"
    using fold_mapSet_append [of "[]" "aliases R"] keys(1) by simp
  finally have als: "fold (\<lambda>(i, alias) newAliases.
       if r i \<noteq> '''' then mapSet (r i) alias newAliases else newAliases) (aliases R) []
     = aliases R" .
  have "resolveDependencyMap m R = R"
    unfolding unfold imps als by simp
  then show ?thesis unfolding R_def .
qed

theorem resolveDependencyMap_idempotent_witness:
  "resolveDependencyMap [(''hooked'', ''github.com/acme/hooked'')]
     (resolveDependencyMap [(''hooked'', ''github.com/acme/hooked'')]
        \<lparr>imports' = {''generatedTypes::Foo'', ''hooked::Bar'', ''fmt''},
         aliases = [(''hooked::Bar'', ''bar''), (''fmt'', ''f'')]\<rparr>)
   = \<lparr>imports' = {''github.com/acme/hooked::Bar'', ''fmt''},
      aliases = [(''github.com/acme/hooked::Bar'', ''bar''), (''fmt'', ''f'')]\<rparr>"
proof -
  let ?m = "[(''hooked'', ''github.com/acme/hooked'')]"
  let ?S = "\<lparr>imports' = {''generatedTypes::Foo'', ''hooked::Bar'', ''fmt''},
         aliases = [(''hooked::Bar'', ''bar''), (''fmt'', ''f'')]\<rparr>"
  have R: "resolveDependencyMap ?m ?S
    = \<lparr>imports' = {''github.com/acme/hooked::Bar'', ''fmt''},
      aliases = [(''github.com/acme/hooked::Bar'', ''bar''), (''fmt'', ''f'')]\<rparr>"
    by (auto simp add: resolve_eval)
  have dm: "fst ` set (spread DEFAULT_MODULE_MAP ?m) =
      {''generated'', ''generatedAccounts'', ''generatedErrors'',
       ''generatedInstructions'', ''generatedTypes'', ''hooked''}"
    by (simp add: spread_def DEFAULT_MODULE_MAP_def)
  have "\<forall>i \<in> imports' (resolveDependencyMap ?m ?S) \<union> fst ` set (aliases (resolveDependencyMap ?m ?S)).
             \<forall>key \<in> fst ` set (spread DEFAULT_MODULE_MAP ?m). \<not> prefix (key @ ''::'') i"
    unfolding R dm by simp
  from resolveDependencyMap_idempotent [OF this] show ?thesis by (simp only: R)
qed

section \<open>Numbers\<close>

text \<open>
  Claim C3. A number node whose endianness is not little-endian makes the visitor throw
  the endianness error; the visit returns no manifest.
\<close>

theorem visitNumberType_endianness:
  assumes "endian n \<noteq> LE"
  shows "visit e (NumberType n) c = (Inl NumberEndiannessNotSupported, c)
    \<and> (\<forall>m c'. visit e (NumberType n) c \<noteq> (Inr m, c'))"
  using assms by (simp add: visitNumberType_def)

theorem visitNumberType_endianness_witness:
  "visit exampleEnv (NumberType \<lparr>format = ''u32'', endian = BE\<rparr>) (getTypeManifestVisitor False None)
     = (Inl NumberEndiannessNotSupported, getTypeManifestVisitor False None)"
  using visitNumberType_endianness [of "\<lparr>format = ''u32'', endian = BE\<rparr>" exampleEnv
      "getTypeManifestVisitor False None"]
  by simp

section \<open>Evaluating the examples\<close>

lemmas example_eval =
  exampleEnv_def upperCase_def u8_def hexDigit_def

lemmas visit_eval =
  visitDefinedType_def visitAccount_def getTypeManifestVisitor_def noName_def
  visitNumberType_def visitBooleanType_def visitStringType_def NUMBER_FORMAT_MAP_def
  numberTypeNode_u8_def leafManifest_def arrayManifest_def bytesArraySize_def
  structManifest_def tupleManifest_def defaultMerge_def scalarEnumManifest_def
  dataEnumManifest_def constLines_def isScalarEnum_def fieldTags_def tagStr_def
  mergeManifests_def mergeWith_def mergeOne_def add_def addAlias_def emptyImportMap_def
  showNat.simps digitChar_def Let_def

lemmas instruction_eval =
  visitInstruction_def visitArgument_def getConflictsForInstructionAccountsAndArgs_def
  newSet_def structTypeNodeFromInstructionArgumentNodes_def conflictWarning_def

section \<open>The visits that are written out\<close>

text \<open>
  \<open>visitBytesType\<close> and \<open>visitBytesValue\<close> build a node and visit it. The model computes
  the result of that visit directly; it is the visit of the node they build.
\<close>

lemma visitBytesType_visits_array:
  "visit e BytesType c
     = visit e (ArrayType (NumberType numberTypeNode_u8) (bytesArraySize (parentSize c))) c"
  by (simp split: sum.splits)

lemma collect_numbers:
  "collect (map (renderValueNode e) (map NumberValue ns)) = Inr (map numberLiteral ns)"
  by (induction ns) simp_all

lemma visitBytesValue_visits_array:
  "renderValueNode e (BytesValue encoding d)
     = renderValueNode e
         (ArrayValue (map (\<lambda>b. NumberValue (int b)) (getBytesFromBytesValueNode e encoding d)))"
  using collect_numbers [of e "map int (getBytesFromBytesValueNode e encoding d)"]
  by (simp add: bytesLiteral_def o_def)

section \<open>Option fields of a struct\<close>

text \<open>
  A field whose type is an option is rendered as a pointer, and its line ends there:
  \<open>visitOptionType\<close> has set \<open>isOptionField\<close> back to false when \<open>visitStructFieldType\<close>
  tests it, so the field gets no tag.
\<close>

lemma option_field_line:
  assumes "visit e (StructFieldType f docs (OptionType t)) c = (Inr m, c')"
  shows "\<exists>child c1.
      visit e t (c\<lparr>parentName := Some (pascalCase e (the (parentName c)) @ pascalCase e f),
                   nestedStruct := True, inlineStruct := False, isOptionField := True\<rparr>)
        = (Inr child, c1)
    \<and> mType m = goDocComment e docs @ TAB @ pascalCase e f @ '' *'' @ mType child"
  using assms
  by (auto simp: Let_def fieldTags_def tagStr_def split: if_splits prod.splits sum.splits)

text \<open>
  Claim C1, on the code: the struct \<open>{ x: u8, y: option<u8> }\<close> of the defined type
  \<open>point\<close> is declared with two fields, the second a pointer to \<open>uint8\<close>, and neither
  field carries the \<open>bin:"optional"\<close> tag the claim expects on \<open>y\<close>.
\<close>

theorem option_field_has_no_tag:
  "visitDefinedType exampleEnv ''point''
     (StructType [StructFieldType ''x'' [] u8, StructFieldType ''y'' [] (OptionType u8)])
     (getTypeManifestVisitor False None)
   = (Inr \<lparr>mImports = emptyImportMap, nestedStructs = [],
           mType = ''type Point struct {'' @ NL @ TAB @ ''X uint8'' @ NL @ TAB @ ''Y *uint8''
             @ NL @ ''}''\<rparr>,
      getTypeManifestVisitor False None)"
  by (simp add: example_eval visit_eval)

text \<open>
  The tag appears when a struct sits inside an option: it is put on the first field of
  that struct, which is no option, and not on the field that is.
\<close>

lemma option_tag_lands_on_nested_field:
  "fst (visitDefinedType exampleEnv ''point''
     (StructType [StructFieldType ''x'' [] u8,
        StructFieldType ''y'' []
          (OptionType (StructType [StructFieldType ''a'' [] u8, StructFieldType ''b'' [] u8]))])
     (getTypeManifestVisitor False None))
   = Inr \<lparr>mImports = emptyImportMap,
           nestedStructs =
             [''type PointY struct {'' @ NL @ TAB @ ''A uint8 '' @ BQ @ ''bin:'' @ DQ
              @ ''optional'' @ DQ @ BQ @ NL @ TAB @ ''B uint8'' @ NL @ ''}''],
           mType = ''type Point struct {'' @ NL @ TAB @ ''X uint8'' @ NL @ TAB @ ''Y *PointY''
             @ NL @ ''}''\<rparr>"
  by (simp add: example_eval visit_eval)

section \<open>Fixed-size bytes\<close>

lemma showInt_int: "showInt (int b) = showNat b"
  by (simp add: showInt_def)

lemma mergeWith_empty:
  "\<forall>m \<in> set ms. m = emptyImportMap \<Longrightarrow> mergeWith emptyImportMap ms = emptyImportMap"
  by (induction ms) (auto simp: mergeWith_def mergeOne_def add_def emptyImportMap_def)



section \<open>The context across a visit\<close>

lemma kept_refl: "contextKept c c"
  by (simp add: contextKept_def)

lemma kept_trans: "contextKept a b \<Longrightarrow> contextKept b c \<Longrightarrow> contextKept a c"
  by (auto simp: contextKept_def)

lemma kept_after_size:
  "contextKept (c\<lparr>parentSize := s\<rparr>) c1 \<Longrightarrow> contextKept c (c1\<lparr>parentSize := None\<rparr>)"
  by (auto simp: contextKept_def)

lemma kept_after_option:
  "contextKept (c\<lparr>isOptionField := True\<rparr>) c1 \<Longrightarrow> contextKept c (c1\<lparr>isOptionField := False\<rparr>)"
  by (auto simp: contextKept_def)

lemma kept_after_struct_variant:
  "contextKept (c\<lparr>inlineStruct := True, parentName := p\<rparr>) c1 \<Longrightarrow>
   contextKept c (c1\<lparr>inlineStruct := False, parentName := parentName c\<rparr>)"
  by (auto simp: contextKept_def)

lemma kept_after_tuple_variant:
  "contextKept (c\<lparr>parentName := p\<rparr>) c1 \<Longrightarrow> contextKept c (c1\<lparr>parentName := parentName c\<rparr>)"
  by (auto simp: contextKept_def)

lemma visitAll_kept:
  assumes "\<forall>n \<in> set ns. \<forall>c m c'. visit e n c = (Inr m, c') \<longrightarrow> contextKept c c'"
    and "visitAll e ns c = (Inr ms, c')"
  shows "contextKept c c'"
  using assms
proof (induction ns arbitrary: c ms c')
  case Nil
  then show ?case by (simp add: kept_refl)
next
  case (Cons n ns)
  from Cons.prems(2) obtain m c1 ms' where
    n: "visit e n c = (Inr m, c1)" and ns: "visitAll e ns c1 = (Inr ms', c')"
    by (auto split: prod.splits sum.splits)
  have "contextKept c c1" using Cons.prems(1) n by auto
  moreover have "contextKept c1 c'" using Cons.IH [OF _ ns] Cons.prems(1) by auto
  ultimately show ?case by (rule kept_trans)
qed

lemma visit_kept: "visit e n c = (Inr m, c') \<Longrightarrow> contextKept c c'"
proof (induction n arbitrary: c m c')
  case (ArrayType item count)
  then show ?case by (auto split: prod.splits sum.splits)
next
  case (BooleanType sz)
  then show ?case by (auto simp: kept_refl)
next
  case BytesType
  then show ?case by (auto simp: kept_refl split: sum.splits)
next
  case (DefinedTypeLink x)
  then show ?case by (auto simp: kept_refl)
next
  case (EnumEmptyVariantType x)
  then show ?case by (auto simp: kept_refl)
next
  case (EnumStructVariantType vname struct)
  then show ?case
    by (auto simp: Let_def split: prod.splits sum.splits if_splits
        intro: kept_after_struct_variant)
next
  case (EnumTupleVariantType vname tuple)
  then show ?case
    by (auto simp: Let_def split: prod.splits sum.splits if_splits
        intro: kept_after_tuple_variant)
next
  case (EnumType variants)
  then have "\<forall>n \<in> set variants. \<forall>c m c'. visit e n c = (Inr m, c') \<longrightarrow> contextKept c c'"
    by blast
  moreover from EnumType.prems obtain ms where "visitAll e variants c = (Inr ms, c')"
    by (auto simp: Let_def split: prod.splits sum.splits if_splits)
  ultimately show ?case by (rule visitAll_kept)
next
  case (FixedSizeType t sz)
  then show ?case
    by (auto split: prod.splits sum.splits intro: kept_after_size)
next
  case (MapType key val count)
  from MapType.prems obtain k c1 v where
    "visit e key c = (Inr k, c1)" and "visit e val c1 = (Inr v, c')"
    by (auto split: prod.splits sum.splits)
  then have "contextKept c c1" and "contextKept c1 c'"
    using MapType.IH by blast+
  then show ?case by (rule kept_trans)
next
  case (NumberType x)
  then show ?case by (auto simp: kept_refl)
next
  case (OptionType item)
  then show ?case
    by (auto split: prod.splits sum.splits intro: kept_after_option)
next
  case PublicKeyType
  then show ?case by (auto simp: kept_refl)
next
  case (RemainderOptionType item)
  then show ?case by simp
next
  case (SetType item count)
  then show ?case by (auto split: prod.splits sum.splits)
next
  case (SizePrefixType t pre)
  then show ?case
    by (auto split: prod.splits sum.splits intro: kept_after_size)
next
  case (StringType encoding)
  then show ?case by (auto simp: kept_refl)
next
  case (StructFieldType fname docs t)
  let ?c0 = "c\<lparr>parentName := Some (pascalCase e (the (parentName c)) @ pascalCase e fname),
                nestedStruct := True, inlineStruct := False\<rparr>"
  from StructFieldType.prems obtain fm c1 where
    v: "visit e t ?c0 = (Inr fm, c1)" and
    c': "c' = c1\<lparr>parentName := parentName c, inlineStruct := inlineStruct c,
                nestedStruct := nestedStruct c, isOptionField := False\<rparr>
         \<or> (\<not> isOptionField c1 \<and> c' = c1\<lparr>parentName := parentName c,
                inlineStruct := inlineStruct c, nestedStruct := nestedStruct c\<rparr>)"
    by (auto simp: Let_def split: prod.splits sum.splits if_splits)
  from v have "contextKept ?c0 c1" by (rule StructFieldType.IH)
  with c' show ?case by (auto simp: contextKept_def)
next
  case (StructType flds)
  then have "\<forall>n \<in> set flds. \<forall>c m c'. visit e n c = (Inr m, c') \<longrightarrow> contextKept c c'"
    by blast
  moreover from StructType.prems obtain ms where "visitAll e flds c = (Inr ms, c')"
    by (auto simp: Let_def split: prod.splits sum.splits if_splits)
  ultimately show ?case by (rule visitAll_kept)
next
  case (TupleType items)
  then have "\<forall>n \<in> set items. \<forall>c m c'. visit e n c = (Inr m, c') \<longrightarrow> contextKept c c'"
    by blast
  moreover from TupleType.prems obtain ms where "visitAll e items c = (Inr ms, c')"
    by (auto simp: Let_def split: prod.splits sum.splits if_splits)
  ultimately show ?case by (rule visitAll_kept)
next
  case (ZeroableOptionType item)
  then show ?case by simp
next
  case (OtherType children)
  then have "\<forall>n \<in> set children. \<forall>c m c'. visit e n c = (Inr m, c') \<longrightarrow> contextKept c c'"
    by blast
  moreover from OtherType.prems obtain ms where "visitAll e children c = (Inr ms, c')"
    by (auto simp: Let_def split: prod.splits sum.splits if_splits)
  ultimately show ?case by (rule visitAll_kept)
qed

lemma visitAll_kept_all: "visitAll e ns c = (Inr ms, c') \<Longrightarrow> contextKept c c'"
  by (rule visitAll_kept) (auto dest: visit_kept)

text \<open>
  Claim C8, as stated: after a visit returns or throws, every context variable holds the
  value it had before. On a throw nothing is restored: a big-endian number in the field
  \<open>x\<close> of the defined type \<open>point\<close> leaves the parent name \<open>PointX\<close> and the nested flag set,
  where they were \<open>null\<close> and false. On a return a flag can come back cleared: an option
  visited with the option flag set returns with the flag false.
\<close>

theorem context_not_restored:
  "visitDefinedType exampleEnv ''point''
     (StructType [StructFieldType ''x'' [] (NumberType \<lparr>format = ''u16'', endian = BE\<rparr>)])
     (getTypeManifestVisitor False None)
   = (Inl NumberEndiannessNotSupported,
      \<lparr>parentName = Some ''PointX'', nestedStruct = True, inlineStruct = False,
       parentSize = None, isOptionField = False\<rparr>)
   \<and> getTypeManifestVisitor False None
     = \<lparr>parentName = None, nestedStruct = False, inlineStruct = False,
        parentSize = None, isOptionField = False\<rparr>
   \<and> isOptionField (snd (visit exampleEnv (OptionType u8)
        \<lparr>parentName = None, nestedStruct = False, inlineStruct = False,
         parentSize = None, isOptionField = True\<rparr>)) = False"
  by (simp add: example_eval visit_eval)

text \<open>
  Claim C8, amended: when the visit of a type node returns, the parent name and the nested
  flag hold the values they had before the visit, and each of the inline flag, the parent
  size and the option flag holds the value it had before or its cleared value (false,
  \<open>null\<close>, false). When the visit of an account or of a defined type returns, the parent
  name is \<open>null\<close> and the same holds of the other variables.
\<close>

theorem context_after_return:
  "(visit e n c = (Inr m, c') \<longrightarrow>
      parentName c' = parentName c \<and> nestedStruct c' = nestedStruct c
      \<and> (inlineStruct c' = inlineStruct c \<or> inlineStruct c' = False)
      \<and> (parentSize c' = parentSize c \<or> parentSize c' = None)
      \<and> (isOptionField c' = isOptionField c \<or> isOptionField c' = False))
   \<and> (visitDefinedType e nm n c = (Inr m, c') \<or> visitAccount e nm n c = (Inr m, c') \<longrightarrow>
      parentName c' = None \<and> nestedStruct c' = nestedStruct c
      \<and> (inlineStruct c' = inlineStruct c \<or> inlineStruct c' = False)
      \<and> (parentSize c' = parentSize c \<or> parentSize c' = None)
      \<and> (isOptionField c' = isOptionField c \<or> isOptionField c' = False))"
proof (rule conjI; rule impI)
  assume "visit e n c = (Inr m, c')"
  then have "contextKept c c'" by (rule visit_kept)
  then show "parentName c' = parentName c \<and> nestedStruct c' = nestedStruct c
      \<and> (inlineStruct c' = inlineStruct c \<or> inlineStruct c' = False)
      \<and> (parentSize c' = parentSize c \<or> parentSize c' = None)
      \<and> (isOptionField c' = isOptionField c \<or> isOptionField c' = False)"
    by (simp add: contextKept_def)
next
  assume "visitDefinedType e nm n c = (Inr m, c') \<or> visitAccount e nm n c = (Inr m, c')"
  then obtain m0 c1 where
    v: "visit e n (c\<lparr>parentName := Some (pascalCase e nm)\<rparr>) = (Inr m0, c1)"
    and c': "c' = c1\<lparr>parentName := None\<rparr>"
    by (auto simp: visitDefinedType_def visitAccount_def split: prod.splits sum.splits)
  from v have "contextKept (c\<lparr>parentName := Some (pascalCase e nm)\<rparr>) c1" by (rule visit_kept)
  then show "parentName c' = None \<and> nestedStruct c' = nestedStruct c
      \<and> (inlineStruct c' = inlineStruct c \<or> inlineStruct c' = False)
      \<and> (parentSize c' = parentSize c \<or> parentSize c' = None)
      \<and> (isOptionField c' = isOptionField c \<or> isOptionField c' = False)"
    by (auto simp: contextKept_def c')
qed

theorem context_after_return_witness:
  "visit exampleEnv (FixedSizeType (OptionType (StringType ''utf8'')) 4)
     \<lparr>parentName = Some ''point'', nestedStruct = True, inlineStruct = False,
      parentSize = Some (SizeNumber 8), isOptionField = True\<rparr>
   = (Inr \<lparr>mImports = emptyImportMap, nestedStructs = [], mType = ''*[4]byte''\<rparr>,
      \<lparr>parentName = Some ''point'', nestedStruct = True, inlineStruct = False,
       parentSize = None, isOptionField = False\<rparr>)
   \<and> parentName \<lparr>parentName = Some ''point'', nestedStruct = True, inlineStruct = False,
       parentSize = None, isOptionField = False\<rparr> = Some ''point''"
proof -
  have v: "visit exampleEnv (FixedSizeType (OptionType (StringType ''utf8'')) 4)
     \<lparr>parentName = Some ''point'', nestedStruct = True, inlineStruct = False,
      parentSize = Some (SizeNumber 8), isOptionField = True\<rparr>
   = (Inr \<lparr>mImports = emptyImportMap, nestedStructs = [], mType = ''*[4]byte''\<rparr>,
      \<lparr>parentName = Some ''point'', nestedStruct = True, inlineStruct = False,
       parentSize = None, isOptionField = False\<rparr>)"
    by (simp add: visit_eval)
  from context_after_return [THEN conjunct1, rule_format, OF v] v show ?thesis by simp
qed

section \<open>Size wrappers\<close>




section \<open>Enums\<close>

lemma visit_field_inline:
  assumes "visit e (StructFieldType f docs t) c = (Inr m, c')"
  shows "inlineStruct c' = inlineStruct c"
  using assms by (auto simp: Let_def split: prod.splits sum.splits if_splits)

lemma visitAll_fields_inline:
  assumes "list_all isStructFieldType flds" and "visitAll e flds c = (Inr ms, c')"
  shows "inlineStruct c' = inlineStruct c"
  using assms
proof (induction flds arbitrary: c ms c')
  case Nil
  then show ?case by simp
next
  case (Cons n ns)
  from Cons.prems(1) obtain f docs t where n: "n = StructFieldType f docs t"
    by (cases n) auto
  from Cons.prems(2) obtain m c1 ms' where
    v: "visit e n c = (Inr m, c1)" and vs: "visitAll e ns c1 = (Inr ms', c')"
    by (auto split: prod.splits sum.splits)
  from v have "inlineStruct c1 = inlineStruct c"
    unfolding n by (rule visit_field_inline)
  moreover from Cons.prems(1) vs have "inlineStruct c' = inlineStruct c1"
    by (intro Cons.IH) auto
  ultimately show ?case by simp
qed




lemma visitAll_scalar:
  assumes "isScalarEnum variants"
  shows "visitAll e variants c
    = (Inr (map (\<lambda>v. leafManifest emptyImportMap (pascalCase e (variantName v))) variants), c)"
  using assms
proof (induction variants)
  case Nil
  then show ?case by simp
next
  case (Cons v vs)
  from Cons.prems obtain n where "v = EnumEmptyVariantType n"
    by (cases v) (auto simp: isScalarEnum_def)
  moreover from Cons.prems have "isScalarEnum vs" by (simp add: isScalarEnum_def)
  ultimately show ?case using Cons.IH by simp
qed

lemma mergeManifests_leaves:
  "mergeManifests (map (\<lambda>v. leafManifest emptyImportMap (f v)) vs) = (emptyImportMap, [])"
  by (simp add: mergeManifests_def mergeWith_empty leafManifest_def o_def)

text \<open>
  Claim C4. A scalar enum under the parent name \<open>P\<close> is declared as \<open>uint8\<close> with one
  block of constants: as many lines as variants, line \<open>i\<close> the constant of variant \<open>i\<close> in
  declaration order, and the first line bound to \<open>iota\<close>. In such a block of Go the
  constant on line \<open>i\<close> has the ordinal \<open>i\<close>.
\<close>

theorem scalar_enum_order:
  assumes "isScalarEnum variants" and "parentName c = Some P" and "P \<noteq> ''''"
  shows "\<exists>lines.
      visit e (EnumType variants) c
        = (Inr \<lparr>mImports = emptyImportMap, nestedStructs = [],
                mType = ''type '' @ pascalCase e P @ '' uint8'' @ NL @ NL
                  @ ''const ('' @ NL @ join NL lines @ NL @ '')''\<rparr>, c)
    \<and> length lines = length variants
    \<and> (\<forall>i < length variants.
          variants ! i = EnumEmptyVariantType (variantName (variants ! i))
        \<and> lines ! i = TAB @ pascalCase e P @ ''_'' @ pascalCase e (variantName (variants ! i))
            @ (if i = 0 then '' '' @ pascalCase e P @ '' = iota'' else ''''))"
proof -
  let ?T = "pascalCase e P"
  let ?ms = "map (\<lambda>v. leafManifest emptyImportMap (pascalCase e (variantName v))) variants"
  let ?lines = "constLines ?T ?ms"
  have visit: "visit e (EnumType variants) c
        = (Inr \<lparr>mImports = emptyImportMap, nestedStructs = [],
                mType = ''type '' @ ?T @ '' uint8'' @ NL @ NL
                  @ ''const ('' @ NL @ join NL ?lines @ NL @ '')''\<rparr>, c)"
    using assms
    by (simp add: visitAll_scalar noName_def Let_def scalarEnumManifest_def mergeManifests_leaves)
  have len: "length ?lines = length variants"
    by (simp add: constLines_def)
  have nth: "variants ! i = EnumEmptyVariantType (variantName (variants ! i))
      \<and> ?lines ! i = TAB @ ?T @ ''_'' @ pascalCase e (variantName (variants ! i))
            @ (if i = 0 then '' '' @ ?T @ '' = iota'' else '''')"
    if "i < length variants" for i
  proof -
    from assms(1) that have "isEmptyVariant (variants ! i)"
      by (simp add: isScalarEnum_def list_all_length)
    then have "variants ! i = EnumEmptyVariantType (variantName (variants ! i))"
      by (cases "variants ! i") auto
    moreover from that have "?lines ! i = TAB @ ?T @ ''_'' @ pascalCase e (variantName (variants ! i))
            @ (if i = 0 then '' '' @ ?T @ '' = iota'' else '''')"
      by (simp add: constLines_def nth_enumerate_eq leafManifest_def Let_def)
    ultimately show ?thesis by simp
  qed
  from visit len nth show ?thesis by blast
qed

theorem scalar_enum_order_witness:
  "visit exampleEnv (EnumType [EnumEmptyVariantType ''red'', EnumEmptyVariantType ''green'',
        EnumEmptyVariantType ''blue''])
     (getTypeManifestVisitor False (Some ''color''))
   = (Inr \<lparr>mImports = emptyImportMap, nestedStructs = [],
           mType = ''type Color uint8'' @ NL @ NL @ ''const ('' @ NL
             @ TAB @ ''Color_Red Color = iota'' @ NL
             @ TAB @ ''Color_Green'' @ NL
             @ TAB @ ''Color_Blue'' @ NL @ '')''\<rparr>,
      getTypeManifestVisitor False (Some ''color''))"
proof -
  have "isScalarEnum [EnumEmptyVariantType ''red'', EnumEmptyVariantType ''green'',
        EnumEmptyVariantType ''blue'']"
    by (simp add: isScalarEnum_def)
  from scalar_enum_order [OF this, of "getTypeManifestVisitor False (Some ''color'')" "''color''" exampleEnv]
  show ?thesis
    by (simp add: example_eval visit_eval)
qed

section \<open>Name conflicts of an instruction\<close>

lemma set_fold_newSet:
  "set (fold (\<lambda>x s. if x \<in> set s then s else s @ [x]) xs acc) = set acc \<union> set xs"
  by (induction xs arbitrary: acc) auto

lemma set_newSet: "set (newSet xs) = set xs"
  by (simp add: newSet_def set_fold_newSet)

lemma newSet_empty: "newSet xs = [] \<longleftrightarrow> xs = []"
  using set_newSet [of xs] by (metis set_empty)

lemma indexOf_member: "x \<in> set a \<Longrightarrow> 0 \<le> indexOf a x"
  by (induction a) auto

lemma indexOf_first:
  "i < length a \<Longrightarrow> indexOf a (a ! i) = int i \<longleftrightarrow> a ! i \<notin> set (take i a)"
proof (induction a arbitrary: i)
  case Nil
  then show ?case by simp
next
  case (Cons y ys)
  show ?case
  proof (cases i)
    case 0
    then show ?thesis by simp
  next
    case (Suc j)
    with Cons.prems have j: "j < length ys" by simp
    then have mem: "0 \<le> indexOf ys (ys ! j)" by (simp add: indexOf_member)
    show ?thesis
    proof (cases "y = ys ! j")
      case True
      then show ?thesis by (simp add: Suc)
    next
      case False
      with mem Cons.IH [OF j] show ?thesis by (simp add: Suc)
    qed
  qed
qed

lemma duplicates_set:
  "set (map snd (filter (\<lambda>(i, x). indexOf a x \<noteq> int i) (enumerate 0 a)))
     = {x. \<exists>i < length a. a ! i = x \<and> x \<in> set (take i a)}"
proof (intro set_eqI iffI)
  fix x
  assume "x \<in> set (map snd (filter (\<lambda>(i, x). indexOf a x \<noteq> int i) (enumerate 0 a)))"
  then obtain i where "(i, x) \<in> set (enumerate 0 a)" and ne: "indexOf a x \<noteq> int i"
    by auto
  then have i: "i < length a" and x: "a ! i = x"
    by (simp_all add: in_set_enumerate_eq)
  with ne indexOf_first [OF i] have "x \<in> set (take i a)" by auto
  with i x show "x \<in> {x. \<exists>i < length a. a ! i = x \<and> x \<in> set (take i a)}" by blast
next
  fix x
  assume "x \<in> {x. \<exists>i < length a. a ! i = x \<and> x \<in> set (take i a)}"
  then obtain i where i: "i < length a" and x: "a ! i = x" and t: "x \<in> set (take i a)"
    by blast
  with indexOf_first [OF i] have "indexOf a x \<noteq> int i" by auto
  moreover from i x have "(i, x) \<in> set (enumerate 0 a)"
    by (simp add: in_set_enumerate_eq)
  ultimately show "x \<in> set (map snd (filter (\<lambda>(i, x). indexOf a x \<noteq> int i) (enumerate 0 a)))"
    by force
qed

lemma count_list_twice:
  "2 \<le> count_list a x \<longleftrightarrow> (\<exists>i < length a. a ! i = x \<and> x \<in> set (take i a))"
proof (induction a rule: rev_induct)
  case Nil
  then show ?case by simp
next
  case (snoc y ys)
  have split: "(\<exists>i < length (ys @ [y]). (ys @ [y]) ! i = x \<and> x \<in> set (take i (ys @ [y])))
      \<longleftrightarrow> (\<exists>i < length ys. ys ! i = x \<and> x \<in> set (take i ys)) \<or> (y = x \<and> x \<in> set ys)"
    (is "?L \<longleftrightarrow> ?A \<or> ?B")
  proof
    assume ?L
    then obtain i where i: "i < length (ys @ [y])" and x: "(ys @ [y]) ! i = x"
      and t: "x \<in> set (take i (ys @ [y]))" by blast
    show "?A \<or> ?B"
    proof (cases "i < length ys")
      case True
      with x t show ?thesis by (auto simp: nth_append)
    next
      case False
      with i have "i = length ys" by simp
      with x t show ?thesis by simp
    qed
  next
    assume "?A \<or> ?B"
    then show ?L
    proof
      assume ?A
      then obtain i where "i < length ys" "ys ! i = x" "x \<in> set (take i ys)" by blast
      then have "i < length (ys @ [y]) \<and> (ys @ [y]) ! i = x \<and> x \<in> set (take i (ys @ [y]))"
        by (simp add: nth_append)
      then show ?L by blast
    next
      assume ?B
      then have "length ys < length (ys @ [y]) \<and> (ys @ [y]) ! length ys = x
          \<and> x \<in> set (take (length ys) (ys @ [y]))"
        by simp
      then show ?L by blast
    qed
  qed
  have "1 \<le> count_list ys x \<longleftrightarrow> x \<in> set ys"
    using count_list_0_iff [of ys x] by auto
  with snoc.IH show ?case
    unfolding split by auto
qed

lemma conflicts_set:
  "set (getConflictsForInstructionAccountsAndArgs node)
     = {x. 2 \<le> count_list (accounts node @ map argName (arguments node)) x}"
  unfolding getConflictsForInstructionAccountsAndArgs_def Let_def set_newSet
    duplicates_set count_list_twice ..

lemma count_list_distinct: "distinct xs \<Longrightarrow> count_list xs x = (if x \<in> set xs then 1 else 0)"
  by (induction xs) auto

lemma visitArgument_name:
  assumes "visitArgument e n conflicts a s = Inr s'"
  shows "map name (instructionArgs s') = map name (instructionArgs s)
     @ [if argName a \<in> set conflicts then argName a @ ''Arg'' else argName a]"
  using assms
  by (auto simp: visitArgument_def Let_def
      split: sum.splits option.splits instructionInputValueNode.splits)

lemma visitArguments_names:
  assumes "visitArguments e n conflicts args s = Inr s'"
  shows "map name (instructionArgs s') = map name (instructionArgs s)
     @ map (\<lambda>a. if argName a \<in> set conflicts then argName a @ ''Arg'' else argName a) args"
  using assms
proof (induction args arbitrary: s)
  case Nil
  then show ?case by simp
next
  case (Cons a as)
  from Cons.prems obtain s1 where
    a: "visitArgument e n conflicts a s = Inr s1" and as: "visitArguments e n conflicts as s1 = Inr s'"
    by (auto split: sum.splits)
  from Cons.IH [OF as] visitArgument_name [OF a] show ?case by simp
qed




end
